theory Spec2Isabelle
  imports Complex_Main
begin

section \<open>Data model (types.ts)\<close>

text \<open>
  JavaScript numbers are modelled as exact reals (\<open>real\<close>) for prices and durations
  and as naturals for counts (passengers, stops, month and day numbers). Strings are
  \<open>string\<close>. A property access on \<open>undefined\<close> throws a TypeError; this is the only
  exception the modelled code can raise, and it is a value of the result type.
\<close>

datatype error = TypeError

datatype CabinClass = ECONOMY | PREMIUM_ECONOMY | BUSINESS | FIRST
datatype PriceConfidence = HIGH | MEDIUM | LOW
datatype ValidationStatus = VALID | QUARANTINED
datatype Direction = outbound | inbound
datatype TripType = round_trip | one_way

record Passengers =
  adults :: nat
  children :: nat
  infantsInSeat :: nat
  infantsOnLap :: nat

record FlightSegment =
  carrierIata :: string
  flightNumber :: string
  fromIata :: string
  toIata :: string
  departAt :: string
  arriveAt :: string
  durationMin :: real

record FlightSlice =
  direction :: Direction
  segments :: "FlightSegment list"
  totalDurationMin :: real
  stopsCount :: nat

text \<open>Field \<open>total\<close> of the source is \<open>total'\<close> here, field \<open>id\<close> is \<open>id'\<close>.\<close>

record OfferPrice =
  total' :: real
  currency :: string
  totalPHP :: real
  fxRate :: real
  fxTimestamp :: string
  includesTaxesAndFees :: bool

record OfferMeta =
  isSeparateTickets :: bool
  isLcc :: bool
  baggageUnknown :: bool

record OfferValidation =
  status :: ValidationStatus
  reasonCodes :: "string list"
  confidence :: PriceConfidence

record OfferCanonical =
  id' :: string
  provider :: string
  tripType :: TripType
  originIata :: string
  destinationIata :: string
  departDate :: string
  returnDate :: "string option"
  passengers :: Passengers
  cabin :: CabinClass
  price :: OfferPrice
  slices :: "FlightSlice list"
  meta :: OfferMeta
  validation :: OfferValidation

text \<open>
  The raw offer is the object literal that \<open>generateRawMockOffers\<close> builds; its fields
  carry the prefix \<open>raw_\<close>. The two optional flags that \<open>normalizeOffer\<close> reads
  (\<open>raw.isSeparate\<close>, \<open>raw.isLcc\<close>) are absent from that literal, hence optional.
\<close>

record RawOffer =
  raw_origin :: string
  raw_dest :: string
  raw_city :: string
  raw_departDate :: string
  raw_returnDate :: string
  raw_passengers :: Passengers
  raw_cabin :: CabinClass
  raw_basePriceUsd :: real
  raw_slices :: "FlightSlice list"
  raw_isSeparate :: "bool option"
  raw_isLcc :: "bool option"

text \<open>
  The remaining records carry a prefix on every field, since their field names (\<open>month\<close>,
  \<open>country\<close>, \<open>cheapest\<close>, \<open>origin\<close>, ...) are also the names of the variables of
  the code: \<open>q_\<close> for TrackedQuery, \<open>rec_\<close> for MonthRecommendation, \<open>pt_\<close> for
  MarketPricePoint. \<open>scored\<close> and \<open>candidate\<close> are the two object literals that
  \<open>getMonthlyRecommendations\<close> builds (\<open>{offer, score}\<close> and
  \<open>{country, cheapest, recommended, score}\<close>).
\<close>

record TrackedQuery =
  q_id :: string
  q_origin :: string
  q_tripLengthNights :: nat
  q_cabin :: CabinClass
  q_maxStops :: nat
  q_diversify :: bool
  q_passengers :: Passengers
  q_budget :: "real option"

record Country =
  code :: string
  name :: string
  flag :: string
  popularityScore :: nat

record AirportInfo =
  city :: string
  iata :: string

datatype VerifiedType = CHEAPEST | RECOMMENDED

record MonthRecommendation =
  rec_month :: nat
  rec_country :: Country
  rec_cheapest :: OfferCanonical
  rec_recommended :: OfferCanonical
  rec_lastRefreshed :: string
  rec_isUserVerified :: "bool option"
  rec_verifiedType :: "VerifiedType option"
  rec_verifiedPrice :: "real option"
  rec_verifiedAt :: "string option"


record scored =
  sc_offer :: OfferCanonical
  sc_score :: real

record candidate =
  cand_country :: Country
  cand_cheapest :: OfferCanonical
  cand_recommended :: OfferCanonical
  cand_score :: real

section \<open>Constants (constants.ts and the head of flightProvider.ts)\<close>

definition PRICE_WEIGHT :: real where "PRICE_WEIGHT = 0.75"
definition QUALITY_WEIGHT :: real where "QUALITY_WEIGHT = 0.25"
definition USD_TO_PHP :: real where "USD_TO_PHP = 56.45"
definition IMPOSSIBLE_PH_SFO_PRICE :: real where "IMPOSSIBLE_PH_SFO_PRICE = 15000"

text \<open>
  The flag of a country is the pair of regional-indicator symbols of its code; in UTF-8
  each symbol is the four bytes F0 9F 87 (A6 + the letter's position in the alphabet).
\<close>

definition regionalIndicator :: "char \<Rightarrow> string" where
  "regionalIndicator c =
     [CHR 0xF0, CHR 0x9F, CHR 0x87, char_of (0xA6 + (of_char c - of_char CHR ''A'' :: nat))]"

definition flagOf :: "string \<Rightarrow> string" where
  "flagOf cc = concat (map regionalIndicator cc)"

definition COUNTRIES :: "Country list" where
  "COUNTRIES =
     [ \<lparr> code = ''JP'', name = ''Japan'', flag = flagOf ''JP'', popularityScore = 95 \<rparr>,
       \<lparr> code = ''SG'', name = ''Singapore'', flag = flagOf ''SG'', popularityScore = 88 \<rparr>,
       \<lparr> code = ''TH'', name = ''Thailand'', flag = flagOf ''TH'', popularityScore = 92 \<rparr>,
       \<lparr> code = ''KR'', name = ''South Korea'', flag = flagOf ''KR'', popularityScore = 90 \<rparr>,
       \<lparr> code = ''TW'', name = ''Taiwan'', flag = flagOf ''TW'', popularityScore = 85 \<rparr>,
       \<lparr> code = ''VN'', name = ''Vietnam'', flag = flagOf ''VN'', popularityScore = 82 \<rparr>,
       \<lparr> code = ''ID'', name = ''Indonesia'', flag = flagOf ''ID'', popularityScore = 87 \<rparr>,
       \<lparr> code = ''AU'', name = ''Australia'', flag = flagOf ''AU'', popularityScore = 84 \<rparr>,
       \<lparr> code = ''US'', name = ''United States'', flag = flagOf ''US'', popularityScore = 98 \<rparr>,
       \<lparr> code = ''GB'', name = ''United Kingdom'', flag = flagOf ''GB'', popularityScore = 94 \<rparr>,
       \<lparr> code = ''FR'', name = ''France'', flag = flagOf ''FR'', popularityScore = 97 \<rparr>,
       \<lparr> code = ''IT'', name = ''Italy'', flag = flagOf ''IT'', popularityScore = 96 \<rparr> ]"

definition COUNTRY_AIRPORTS :: "string \<rightharpoonup> AirportInfo list" where
  "COUNTRY_AIRPORTS = map_of
     [ (''JP'', [\<lparr> city = ''Tokyo'', iata = ''NRT'' \<rparr>, \<lparr> city = ''Tokyo'', iata = ''HND'' \<rparr>,
                \<lparr> city = ''Osaka'', iata = ''KIX'' \<rparr>]),
       (''SG'', [\<lparr> city = ''Singapore'', iata = ''SIN'' \<rparr>]),
       (''TH'', [\<lparr> city = ''Bangkok'', iata = ''BKK'' \<rparr>, \<lparr> city = ''Phuket'', iata = ''HKT'' \<rparr>]),
       (''KR'', [\<lparr> city = ''Seoul'', iata = ''ICN'' \<rparr>, \<lparr> city = ''Busan'', iata = ''PUS'' \<rparr>]),
       (''TW'', [\<lparr> city = ''Taipei'', iata = ''TPE'' \<rparr>]),
       (''VN'', [\<lparr> city = ''Hanoi'', iata = ''HAN'' \<rparr>, \<lparr> city = ''Ho Chi Minh'', iata = ''SGN'' \<rparr>]),
       (''ID'', [\<lparr> city = ''Jakarta'', iata = ''CGK'' \<rparr>, \<lparr> city = ''Bali'', iata = ''DPS'' \<rparr>]),
       (''AU'', [\<lparr> city = ''Sydney'', iata = ''SYD'' \<rparr>, \<lparr> city = ''Melbourne'', iata = ''MEL'' \<rparr>]),
       (''US'', [\<lparr> city = ''Los Angeles'', iata = ''LAX'' \<rparr>, \<lparr> city = ''New York'', iata = ''JFK'' \<rparr>,
                \<lparr> city = ''San Francisco'', iata = ''SFO'' \<rparr>]),
       (''GB'', [\<lparr> city = ''London'', iata = ''LHR'' \<rparr>, \<lparr> city = ''Manchester'', iata = ''MAN'' \<rparr>]),
       (''FR'', [\<lparr> city = ''Paris'', iata = ''CDG'' \<rparr>, \<lparr> city = ''Nice'', iata = ''NCE'' \<rparr>]),
       (''IT'', [\<lparr> city = ''Rome'', iata = ''FCO'' \<rparr>, \<lparr> city = ''Milan'', iata = ''MXP'' \<rparr>]) ]"

definition AIRLINES :: "string list" where
  "AIRLINES =
     [ ''Philippine Airlines'', ''Cebu Pacific'', ''AirAsia'', ''Singapore Airlines'',
       ''Japan Airlines'', ''Cathay Pacific'', ''EVA Air'', ''Korean Air'', ''Qantas'', ''Emirates'' ]"


section \<open>The environment: Math.random, Date, Number.toString\<close>

text \<open>
  The code draws random numbers and reads the clock. Both are inputs of the model: the
  world holds the sequence of values that successive \<open>Math.random()\<close> calls return and
  the sequence of strings that successive \<open>new Date().toISOString()\<close> calls return,
  each with the number of calls made so far. \<open>radix36\<close> stands for
  \<open>Number.prototype.toString(36)\<close>, a formatting builtin that no property below depends on.
\<close>

record world =
  random_seq :: "nat \<Rightarrow> real"
  random_calls :: nat
  clock_seq :: "nat \<Rightarrow> string"
  clock_calls :: nat
  radix36 :: "real \<Rightarrow> string"

definition Math_random :: "world \<Rightarrow> real \<times> world" where
  "Math_random w = (random_seq w (random_calls w), w\<lparr>random_calls := Suc (random_calls w)\<rparr>)"

definition Date_toISOString :: "world \<Rightarrow> string \<times> world" where
  "Date_toISOString w = (clock_seq w (clock_calls w), w\<lparr>clock_calls := Suc (clock_calls w)\<rparr>)"

text \<open>\<open>Math.round\<close> rounds to the nearest integer, a tie towards plus infinity.\<close>

definition Math_round :: "real \<Rightarrow> real" where
  "Math_round x = of_int \<lfloor>x + 1 / 2\<rfloor>"

definition Math_floor :: "real \<Rightarrow> int" where
  "Math_floor x = \<lfloor>x\<rfloor>"

section \<open>normalizeOffer\<close>

definition normalizeOffer :: "RawOffer \<Rightarrow> world \<Rightarrow> OfferCanonical \<times> world" where
  "normalizeOffer raw w =
     (let passengers = raw_passengers raw;
          pMult = of_nat (adults passengers) + (of_nat (children passengers) * 0.75)
                  + (of_nat (infantsInSeat passengers + infantsOnLap passengers) * 0.1);
          totalPHP = Math_round (raw_basePriceUsd raw * pMult * USD_TO_PHP);
          (r, w1) = Math_random w;
          (now, w2) = Date_toISOString w1
      in (\<lparr> id' = ''offer-'' @ take 9 (drop 2 (radix36 w r)),
             provider = ''AtlasProvider'',
             tripType = round_trip,
             originIata = raw_origin raw,
             destinationIata = raw_dest raw,
             departDate = raw_departDate raw,
             returnDate = Some (raw_returnDate raw),
             passengers = passengers,
             cabin = raw_cabin raw,
             price = \<lparr> total' = Math_round (raw_basePriceUsd raw * pMult),
                       currency = ''USD'',
                       totalPHP = totalPHP,
                       fxRate = USD_TO_PHP,
                       fxTimestamp = now,
                       includesTaxesAndFees = True \<rparr>,
             slices = raw_slices raw,
             meta = \<lparr> isSeparateTickets = (case raw_isSeparate raw of Some b \<Rightarrow> b | None \<Rightarrow> False),
                      isLcc = (case raw_isLcc raw of Some b \<Rightarrow> b | None \<Rightarrow> False),
                      baggageUnknown = False \<rparr>,
             validation = \<lparr> status = VALID, reasonCodes = [], confidence = HIGH \<rparr> \<rparr>, w2))"

section \<open>validateOffer\<close>

text \<open>
  Rule 4 walks the segments of a slice by index and compares each segment after the first
  with its predecessor; every break appends the reason code once more.
\<close>

fun segmentBreaks :: "FlightSegment list \<Rightarrow> string list" where
  "segmentBreaks (prev # seg # rest) =
     (if toIata prev \<noteq> fromIata seg then [''INVALID_SEGMENT_CONNECTION''] else [])
     @ segmentBreaks (seg # rest)"
| "segmentBreaks _ = []"

text \<open>
  \<open>offer.slices[0].segments[0].carrierIata\<close> is read before any rule runs: with no slice,
  or with a first slice that has no segment, the read throws. The offer is mutated in place
  and returned; the model returns the offer with the new verdict.
\<close>

definition validateOffer :: "OfferCanonical \<Rightarrow> error + OfferCanonical" where
  "validateOffer offer =
     (case slices offer of
        [] \<Rightarrow> Inl TypeError
      | s0 # _ \<Rightarrow>
          (case segments s0 of
             [] \<Rightarrow> Inl TypeError
           | g0 # _ \<Rightarrow>
               (let dest = destinationIata offer;
                    p = totalPHP (price offer);
                    airline = carrierIata g0;
                    reasons1 =
                      (if dest = ''SFO'' \<or> dest = ''LAX'' \<or> dest = ''JFK''
                          \<or> dest = ''LHR'' \<or> dest = ''CDG'' \<or> dest = ''FCO''
                       then (if airline = ''5J'' \<or> airline = ''AK''
                             then [''INVALID_CARRIER_FOR_DISTANCE''] else [])
                            @ (if p < IMPOSSIBLE_PH_SFO_PRICE
                               then [''OUTLIER_HARD_PRICE_TOO_LOW''] else [])
                       else []);
                    reasons2 = reasons1
                      @ (if tripType offer = round_trip \<and> length (slices offer) < 2
                         then [''MISSING_INBOUND_SLICE''] else []);
                    reasons = reasons2 @ concat (map (\<lambda>slice. segmentBreaks (segments slice)) (slices offer));
                    v1 = (if length reasons > 0
                          then (validation offer)\<lparr> status := QUARANTINED, reasonCodes := reasons,
                                                    confidence := LOW \<rparr>
                          else validation offer);
                    v2 = (if p < 5000 \<and> (dest \<noteq> ''SIN'' \<and> dest \<noteq> ''HKG'' \<and> dest \<noteq> ''TPE'')
                          then v1\<lparr> confidence := MEDIUM \<rparr>
                          else v1)
                in Inr (offer\<lparr> validation := v2 \<rparr>))))"

section \<open>calculateOfferScore\<close>

text \<open>
  The two weights are constants imported from constants.ts; \<open>calculateOfferScoreW\<close> is the
  body of the function with the weights as arguments, \<open>calculateOfferScore\<close> the function
  as the code runs it. \<open>offer.slices[0]\<close> is read unguarded, \<open>offer.slices[1]\<close> behind
  \<open>?.\<close> with \<open>|| 0\<close>.
\<close>

definition calculateOfferScoreW :: "real \<Rightarrow> real \<Rightarrow> OfferCanonical \<Rightarrow> error + real" where
  "calculateOfferScoreW pw qw offer =
     (case slices offer of
        [] \<Rightarrow> Inl TypeError
      | s0 # rest \<Rightarrow>
          (let p = totalPHP (price offer);
               stops = stopsCount s0 + (case rest of [] \<Rightarrow> 0 | s1 # _ \<Rightarrow> stopsCount s1);
               duration = totalDurationMin s0
                          + (case rest of [] \<Rightarrow> 0 | s1 # _ \<Rightarrow> totalDurationMin s1);
               normPrice = p / 50000;
               normQuality = (of_nat stops * 5) + (duration / 600)
           in Inr ((pw * normPrice) + (qw * normQuality))))"

definition calculateOfferScore :: "OfferCanonical \<Rightarrow> error + real" where
  "calculateOfferScore offer = calculateOfferScoreW PRICE_WEIGHT QUALITY_WEIGHT offer"

section \<open>String helpers of the generator\<close>

text \<open>
  \<open>String(n)\<close> for a natural number, \<open>padStart(2, '0')\<close>, and
  \<open>String.prototype.includes\<close>.
\<close>

fun String_of_nat :: "nat \<Rightarrow> string" where
  "String_of_nat n =
     (if n < 10 then [''0123456789'' ! n]
      else String_of_nat (n div 10) @ [''0123456789'' ! (n mod 10)])"

definition padStart2 :: "string \<Rightarrow> string" where
  "padStart2 s = replicate (2 - length s) CHR ''0'' @ s"

fun String_includes :: "string \<Rightarrow> string \<Rightarrow> bool" where
  "String_includes [] t = (t = [])"
| "String_includes (c # cs) t = (take (length t) (c # cs) = t \<or> String_includes cs t)"

section \<open>generateRawMockOffers\<close>

text \<open>
  One pass of the loop \<open>for (let i = 0; i < 3; i++)\<close>; the two date strings
  computed before the loop are the arguments \<open>departOn\<close> and \<open>returnOn\<close>. \<open>AIRLINES[airlineIdx]\<close> is
  \<open>undefined\<close> when the index is out of range, and \<open>airlineName.includes\<close> then throws.
  The second draw of the base price happens only for a long-haul destination; the draw of
  the fault trigger always happens (\<open>Math.random() < 0.1\<close> is the left operand).
\<close>

definition mockOffer ::
  "TrackedQuery \<Rightarrow> string \<Rightarrow> string \<Rightarrow> string \<Rightarrow> string \<Rightarrow> nat \<Rightarrow> world
     \<Rightarrow> error + (RawOffer \<times> world)" where
  "mockOffer params departOn returnOn destIata destCity i w =
     (let (r1, w1) = Math_random w;
          airlineIdx = Math_floor (r1 * of_nat (length AIRLINES))
      in if airlineIdx < 0 \<or> int (length AIRLINES) \<le> airlineIdx then Inl TypeError
         else
          (let airlineName = AIRLINES ! nat airlineIdx;
               carrier0 = ''PR'';
               carrier1 = (if String_includes airlineName ''Cebu'' then ''5J'' else carrier0);
               carrier2 = (if String_includes airlineName ''AirAsia'' then ''AK'' else carrier1);
               carrier3 = (if String_includes airlineName ''Singapore'' then ''SQ'' else carrier2);
               carrier4 = (if String_includes airlineName ''Japan'' then ''JL'' else carrier3);
               isLongHaul = (destIata \<in> set [''SFO'', ''LAX'', ''JFK'', ''LHR'', ''CDG'', ''FCO'']);
               (r2, w2) = Math_random w1;
               base0 = 200 + (r2 * 800);
               (base1, w3) = (if isLongHaul
                              then (let (r3, w') = Math_random w2 in (700 + (r3 * 1000), w'))
                              else (base0, w2));
               (r4, w4) = Math_random w3;
               (basePriceUsd, carrierIata) =
                 (if r4 < 0.1 \<and> isLongHaul then (150, ''5J'') else (base1, carrier4))
           in Inr (\<lparr> raw_origin = q_origin params,
                      raw_dest = destIata,
                      raw_city = destCity,
                      raw_departDate = departOn,
                      raw_returnDate = returnOn,
                      raw_passengers = q_passengers params,
                      raw_cabin = q_cabin params,
                      raw_basePriceUsd = basePriceUsd,
                      raw_slices =
                        [ \<lparr> direction = outbound,
                            segments =
                              [ \<lparr> carrierIata = carrierIata,
                                  flightNumber = carrierIata @ String_of_nat (100 + i),
                                  fromIata = q_origin params,
                                  toIata = destIata,
                                  departAt = departOn @ ''T10:00:00'',
                                  arriveAt = departOn @ ''T15:00:00'',
                                  durationMin = (if isLongHaul then 900 else 200) \<rparr> ],
                            totalDurationMin = (if isLongHaul then 900 else 200),
                            stopsCount = (if isLongHaul then 1 else 0) \<rparr>,
                          \<lparr> direction = inbound,
                            segments =
                              [ \<lparr> carrierIata = carrierIata,
                                  flightNumber = carrierIata @ String_of_nat (200 + i),
                                  fromIata = destIata,
                                  toIata = q_origin params,
                                  departAt = returnOn @ ''T10:00:00'',
                                  arriveAt = returnOn @ ''T15:00:00'',
                                  durationMin = (if isLongHaul then 900 else 200) \<rparr> ],
                            totalDurationMin = (if isLongHaul then 900 else 200),
                            stopsCount = (if isLongHaul then 1 else 0) \<rparr> ],
                      raw_isSeparate = None,
                      raw_isLcc = None \<rparr>, w4)))"

fun mockOffersLoop ::
  "TrackedQuery \<Rightarrow> string \<Rightarrow> string \<Rightarrow> string \<Rightarrow> string \<Rightarrow> nat list \<Rightarrow> RawOffer list \<Rightarrow> world
     \<Rightarrow> error + (RawOffer list \<times> world)" where
  "mockOffersLoop params departOn returnOn destIata destCity [] offers w = Inr (offers, w)"
| "mockOffersLoop params departOn returnOn destIata destCity (i # rest) offers w =
     (case mockOffer params departOn returnOn destIata destCity i w of
        Inl e \<Rightarrow> Inl e
      | Inr (offer, w') \<Rightarrow>
          mockOffersLoop params departOn returnOn destIata destCity rest (offers @ [offer]) w')"

definition generateRawMockOffers ::
  "TrackedQuery \<Rightarrow> nat \<Rightarrow> nat \<Rightarrow> string \<Rightarrow> string \<Rightarrow> world \<Rightarrow> error + (RawOffer list \<times> world)" where
  "generateRawMockOffers params month day destIata destCity w =
     (let departDate = ''2026-'' @ padStart2 (String_of_nat (month + 1)) @ ''-''
                       @ padStart2 (String_of_nat day);
          returnDate = ''2026-'' @ padStart2 (String_of_nat (month + 1)) @ ''-''
                       @ padStart2 (String_of_nat (day + q_tripLengthNights params))
      in mockOffersLoop params departDate returnDate destIata destCity [0..<3] [] w)"

section \<open>getMonthlyRecommendations\<close>

text \<open>The loop \<open>for (const raw of rawOffers)\<close>: normalize, validate, keep the VALID ones.\<close>

fun rawOffersLoop ::
  "RawOffer list \<Rightarrow> OfferCanonical list \<Rightarrow> world \<Rightarrow> error + (OfferCanonical list \<times> world)" where
  "rawOffersLoop [] validOffers w = Inr (validOffers, w)"
| "rawOffersLoop (raw # rest) validOffers w =
     (let (normalized, w1) = normalizeOffer raw w
      in case validateOffer normalized of
           Inl e \<Rightarrow> Inl e
         | Inr validated \<Rightarrow>
             rawOffersLoop rest
               (if status (validation validated) = VALID then validOffers @ [validated]
                else validOffers) w1)"

text \<open>The loop \<open>for (const air of airports)\<close>.\<close>

fun airportsLoop ::
  "TrackedQuery \<Rightarrow> nat \<Rightarrow> nat \<Rightarrow> AirportInfo list \<Rightarrow> OfferCanonical list \<Rightarrow> world
     \<Rightarrow> error + (OfferCanonical list \<times> world)" where
  "airportsLoop params month day [] validOffers w = Inr (validOffers, w)"
| "airportsLoop params month day (air # rest) validOffers w =
     (case generateRawMockOffers params month day (iata air) (city air) w of
        Inl e \<Rightarrow> Inl e
      | Inr (rawOffers, w1) \<Rightarrow>
          (case rawOffersLoop rawOffers validOffers w1 of
             Inl e \<Rightarrow> Inl e
           | Inr (validOffers', w2) \<Rightarrow> airportsLoop params month day rest validOffers' w2))"

text \<open>The loop \<open>for (let a = 0; a < 5; a++)\<close> over the sampled days.\<close>

fun daysLoop ::
  "TrackedQuery \<Rightarrow> nat \<Rightarrow> AirportInfo list \<Rightarrow> nat list \<Rightarrow> OfferCanonical list \<Rightarrow> world
     \<Rightarrow> error + (OfferCanonical list \<times> world)" where
  "daysLoop params month airports [] validOffers w = Inr (validOffers, w)"
| "daysLoop params month airports (a # rest) validOffers w =
     (let day = min 28 (1 + nat (Math_floor ((of_nat a / 4) * 27)))
      in case airportsLoop params month day airports validOffers w of
           Inl e \<Rightarrow> Inl e
         | Inr (validOffers', w1) \<Rightarrow> daysLoop params month airports rest validOffers' w1)"

definition collectValidOffers ::
  "TrackedQuery \<Rightarrow> nat \<Rightarrow> AirportInfo list \<Rightarrow> world \<Rightarrow> error + (OfferCanonical list \<times> world)" where
  "collectValidOffers params month airports w = daysLoop params month airports [0..<5] [] w"

text \<open>\<open>validOffers.map(o => ({offer: o, score: this.calculateOfferScore(o)}))\<close>.\<close>

fun scoreOffers :: "OfferCanonical list \<Rightarrow> error + scored list" where
  "scoreOffers [] = Inr []"
| "scoreOffers (x # xs) =
     (case calculateOfferScore x of
        Inl e \<Rightarrow> Inl e
      | Inr s \<Rightarrow>
          (case scoreOffers xs of
             Inl e \<Rightarrow> Inl e
           | Inr ss \<Rightarrow> Inr (\<lparr> sc_offer = x, sc_score = s \<rparr> # ss)))"

text \<open>
  The body of \<open>for (const country of COUNTRIES)\<close>: it yields no candidate
  (\<open>continue\<close>) or the candidate that is pushed. \<open>Array.prototype.sort\<close> with a
  comparator \<open>key a - key b\<close> is a stable ascending sort by the key, as \<open>sort_key\<close> is.
\<close>

definition airportsOf :: "Country \<Rightarrow> AirportInfo list" where
  "airportsOf country = (case COUNTRY_AIRPORTS (code country) of Some as \<Rightarrow> as | None \<Rightarrow> [])"

definition countryCandidate ::
  "TrackedQuery \<Rightarrow> nat \<Rightarrow> Country \<Rightarrow> world \<Rightarrow> error + (candidate option \<times> world)" where
  "countryCandidate params month country w =
     (let airports = airportsOf country
      in case collectValidOffers params month airports w of
           Inl e \<Rightarrow> Inl e
         | Inr (validOffers, w1) \<Rightarrow>
             if length validOffers = 0 then Inr (None, w1)
             else
              (case scoreOffers validOffers of
                 Inl e \<Rightarrow> Inl e
               | Inr scoredOffers \<Rightarrow>
                   (case sort_key (\<lambda>a. totalPHP (price (sc_offer a))) scoredOffers of
                      [] \<Rightarrow> Inl TypeError
                    | c # _ \<Rightarrow>
                        (case sort_key sc_score scoredOffers of
                           [] \<Rightarrow> Inl TypeError
                         | r # _ \<Rightarrow>
                             (let cheapest = sc_offer c;
                                  recommended = sc_offer r
                              in case calculateOfferScore recommended of
                                   Inl e \<Rightarrow> Inl e
                                 | Inr s \<Rightarrow>
                                     Inr (Some \<lparr> cand_country = country, cand_cheapest = cheapest,
                                                  cand_recommended = recommended, cand_score = s \<rparr>,
                                          w1))))))"

fun countriesLoop ::
  "TrackedQuery \<Rightarrow> nat \<Rightarrow> Country list \<Rightarrow> candidate list \<Rightarrow> world
     \<Rightarrow> error + (candidate list \<times> world)" where
  "countriesLoop params month [] candidates w = Inr (candidates, w)"
| "countriesLoop params month (country # rest) candidates w =
     (case countryCandidate params month country w of
        Inl e \<Rightarrow> Inl e
      | Inr (None, w1) \<Rightarrow> countriesLoop params month rest candidates w1
      | Inr (Some cand, w1) \<Rightarrow> countriesLoop params month rest (candidates @ [cand]) w1)"

text \<open>
  The state of the month loop: the world, the running counter \<open>countryUsage\<close> and the
  list \<open>allMonthsRecs\<close>. \<open>usageOf\<close> is \<open>countryUsage[c] || 0\<close>.
\<close>

record engine =
  es_world :: world
  countryUsage :: "string \<rightharpoonup> nat"
  allMonthsRecs :: "MonthRecommendation list"

definition usageOf :: "(string \<rightharpoonup> nat) \<Rightarrow> string \<Rightarrow> nat" where
  "usageOf usage c = (case usage c of Some n \<Rightarrow> n | None \<Rightarrow> 0)"

text \<open>
  The choice of the winner among the sorted candidates: the first one, or with the
  diversification flag the first one whose country was used fewer than 2 times, if any.
\<close>

definition pickWinner :: "bool \<Rightarrow> (string \<rightharpoonup> nat) \<Rightarrow> candidate \<Rightarrow> candidate list \<Rightarrow> candidate" where
  "pickWinner diversify usage first sortedCands =
     (if diversify
      then (case find (\<lambda>cand. usageOf usage (code (cand_country cand)) < 2) sortedCands of
              Some cand \<Rightarrow> cand
            | None \<Rightarrow> first)
      else first)"

definition monthBody :: "Country list \<Rightarrow> TrackedQuery \<Rightarrow> nat \<Rightarrow> engine \<Rightarrow> error + engine" where
  "monthBody countries params month st =
     (case countriesLoop params month countries [] (es_world st) of
        Inl e \<Rightarrow> Inl e
      | Inr (candidates, w1) \<Rightarrow>
          if length candidates = 0 then Inr (st\<lparr> es_world := w1 \<rparr>)
          else
           (case sort_key cand_score candidates of
              [] \<Rightarrow> Inl TypeError
            | first # rest \<Rightarrow>
                (let winner = pickWinner (q_diversify params) (countryUsage st) first (first # rest);
                     c = code (cand_country winner);
                     usage' = (countryUsage st)(c \<mapsto> usageOf (countryUsage st) c + 1);
                     (now, w2) = Date_toISOString w1
                 in Inr \<lparr> es_world = w2,
                          countryUsage = usage',
                          allMonthsRecs = allMonthsRecs st
                            @ [\<lparr> rec_month = month,
                                 rec_country = cand_country winner,
                                 rec_cheapest = cand_cheapest winner,
                                 rec_recommended = cand_recommended winner,
                                 rec_lastRefreshed = now,
                                 rec_isUserVerified = None,
                                 rec_verifiedType = None,
                                 rec_verifiedPrice = None,
                                 rec_verifiedAt = None \<rparr>] \<rparr>)))"

fun monthsLoop :: "Country list \<Rightarrow> TrackedQuery \<Rightarrow> nat list \<Rightarrow> engine \<Rightarrow> error + engine" where
  "monthsLoop countries params [] st = Inr st"
| "monthsLoop countries params (month # rest) st =
     (case monthBody countries params month st of
        Inl e \<Rightarrow> Inl e
      | Inr st' \<Rightarrow> monthsLoop countries params rest st')"

definition initialEngine :: "world \<Rightarrow> engine" where
  "initialEngine w = \<lparr> es_world = w, countryUsage = Map.empty, allMonthsRecs = [] \<rparr>"

text \<open>
  The two \<open>await new Promise(r => setTimeout(r, ...))\<close> delays have no effect on the
  result and are left out.
\<close>

definition getMonthlyRecommendations ::
  "TrackedQuery \<Rightarrow> world \<Rightarrow> error + (MonthRecommendation list \<times> world)" where
  "getMonthlyRecommendations params w =
     (case monthsLoop COUNTRIES params [0..<12] (initialEngine w) of
        Inl e \<Rightarrow> Inl e
      | Inr st \<Rightarrow> Inr (allMonthsRecs st, es_world st))"

section \<open>getYearlyTrend\<close>



section \<open>Notions of the specification\<close>


text \<open>
  Total stops and total duration of an offer as the specification writes them: summed
  over the outbound slice and, if present, the inbound slice.
\<close>

definition totalStops :: "OfferCanonical \<Rightarrow> nat" where
  "totalStops offer = sum_list (map stopsCount (take 2 (slices offer)))"

definition totalDurationMinutes :: "OfferCanonical \<Rightarrow> real" where
  "totalDurationMinutes offer = sum_list (map totalDurationMin (take 2 (slices offer)))"

text \<open>The number of months a country has won in a list of recommendations.\<close>

definition wins :: "MonthRecommendation list \<Rightarrow> string \<Rightarrow> nat" where
  "wins recs c = length (filter (\<lambda>r. code (rec_country r) = c) recs)"

text \<open>\<open>Math.random()\<close> returns a number in the interval from 0 (inclusive) to 1 (exclusive).\<close>

definition unitRandom :: "world \<Rightarrow> bool" where
  "unitRandom w = (\<forall>n. 0 \<le> random_seq w n \<and> random_seq w n < 1)"

text \<open>An offer has an outbound carrier when its first slice exists and has a first segment.\<close>

definition hasOutboundSegment :: "FlightSlice list \<Rightarrow> bool" where
  "hasOutboundSegment ss = (case ss of [] \<Rightarrow> False | s0 # _ \<Rightarrow> segments s0 \<noteq> [])"

text \<open>An offer that the engine retains: its verdict is VALID (and it has an outbound carrier).\<close>

definition validOffer :: "OfferCanonical \<Rightarrow> bool" where
  "validOffer x = (status (validation x) = VALID \<and> hasOutboundSegment (slices x))"

text \<open>
  What the specification asks of the candidate of a country, given the valid offers the
  country retained: \<open>cheapest\<close> is one of them with the minimum displayed price,
  \<open>recommended\<close> is one of them with the minimum score, and the candidate carries the
  score of its recommended offer.
\<close>

definition candidateOf :: "Country \<Rightarrow> OfferCanonical list \<Rightarrow> candidate \<Rightarrow> bool" where
  "candidateOf country validOffers cand =
     (cand_country cand = country
      \<and> cand_cheapest cand \<in> set validOffers
      \<and> (\<forall>x\<in>set validOffers. totalPHP (price (cand_cheapest cand)) \<le> totalPHP (price x))
      \<and> cand_recommended cand \<in> set validOffers
      \<and> calculateOfferScore (cand_recommended cand) = Inr (cand_score cand)
      \<and> (\<forall>x\<in>set validOffers.
            case calculateOfferScore x of Inr s \<Rightarrow> cand_score cand \<le> s | Inl e \<Rightarrow> False))"


text \<open>The recommendation record that the month loop pushes for a winner.\<close>

definition recommendationOf :: "nat \<Rightarrow> candidate \<Rightarrow> string \<Rightarrow> MonthRecommendation" where
  "recommendationOf month winner now =
     \<lparr> rec_month = month, rec_country = cand_country winner,
       rec_cheapest = cand_cheapest winner, rec_recommended = cand_recommended winner,
       rec_lastRefreshed = now, rec_isUserVerified = None, rec_verifiedType = None,
       rec_verifiedPrice = None, rec_verifiedAt = None \<rparr>"

text \<open>The running counter agrees with the number of months won so far.\<close>

definition usageCounts :: "engine \<Rightarrow> bool" where
  "usageCounts st = (\<forall>c. usageOf (countryUsage st) c = wins (allMonthsRecs st) c)"

section \<open>Sample data\<close>

definition demo_passengers :: Passengers where
  "demo_passengers = \<lparr> adults = 1, children = 0, infantsInSeat = 0, infantsOnLap = 0 \<rparr>"

definition demo_segment :: "string \<Rightarrow> string \<Rightarrow> string \<Rightarrow> FlightSegment" where
  "demo_segment carrier from to =
     \<lparr> carrierIata = carrier, flightNumber = carrier @ ''100'', fromIata = from, toIata = to,
       departAt = ''2026-01-15T10:00:00'', arriveAt = ''2026-01-15T15:00:00'', durationMin = 200 \<rparr>"

definition demo_slice :: "Direction \<Rightarrow> string \<Rightarrow> string \<Rightarrow> string \<Rightarrow> FlightSlice" where
  "demo_slice dir carrier from to =
     \<lparr> direction = dir, segments = [demo_segment carrier from to],
       totalDurationMin = 200, stopsCount = 0 \<rparr>"

definition demo_offer :: "string \<Rightarrow> string \<Rightarrow> real \<Rightarrow> FlightSlice list \<Rightarrow> OfferCanonical" where
  "demo_offer dest carrier php ss =
     \<lparr> id' = ''offer-abc'', provider = ''AtlasProvider'', tripType = round_trip,
       originIata = ''MNL'', destinationIata = dest, departDate = ''2026-01-15'',
       returnDate = Some ''2026-01-22'', passengers = demo_passengers, cabin = ECONOMY,
       price = \<lparr> total' = 100, currency = ''USD'', totalPHP = php, fxRate = USD_TO_PHP,
                 fxTimestamp = ''2026-01-01T00:00:00.000Z'', includesTaxesAndFees = True \<rparr>,
       slices = ss,
       meta = \<lparr> isSeparateTickets = False, isLcc = False, baggageUnknown = False \<rparr>,
       validation = \<lparr> status = VALID, reasonCodes = [], confidence = HIGH \<rparr> \<rparr>"

definition demo_round_trip :: "string \<Rightarrow> string \<Rightarrow> real \<Rightarrow> OfferCanonical" where
  "demo_round_trip dest carrier php =
     demo_offer dest carrier php
       [demo_slice outbound carrier ''MNL'' dest, demo_slice inbound carrier dest ''MNL'']"

definition demo_world :: world where
  "demo_world = \<lparr> random_seq = (\<lambda>n. 1 / 2), random_calls = 0,
                   clock_seq = (\<lambda>n. ''2026-01-01T00:00:00.000Z''), clock_calls = 0,
                   radix36 = (\<lambda>x. ''0.i'') \<rparr>"


definition demo_query :: TrackedQuery where
  "demo_query = \<lparr> q_id = ''q1'', q_origin = ''MNL'', q_tripLengthNights = 7, q_cabin = ECONOMY,
                   q_maxStops = 1, q_diversify = True, q_passengers = demo_passengers,
                   q_budget = None \<rparr>"

section \<open>The price computed by normalizeOffer\<close>






section \<open>The verdict of validateOffer\<close>

lemma validateOffer_Inr:
  assumes "validateOffer offer = Inr r"
  obtains s0 rest g0 gs where "slices offer = s0 # rest" "segments s0 = g0 # gs"
  using assms by (auto simp: validateOffer_def split: list.splits)

lemma validateOffer_has_result:
  assumes "slices offer = s0 # rest" and "segments s0 = g0 # gs"
  shows "\<exists>r. validateOffer offer = Inr r"
  using assms by (simp add: validateOffer_def Let_def)

text \<open>
  Claim C2: once a hard rule has fired, the confidence returned is LOW, also when the
  soft-outlier condition holds. The code runs the soft check after the quarantine block
  and without looking at the confidence: for a long-haul offer on carrier 5J priced at
  4000 the verdict is QUARANTINED with confidence MEDIUM.
\<close>

theorem validateOffer_overwrites_low:
  "validateOffer (demo_round_trip ''SFO'' ''5J'' 4000)
     = Inr ((demo_round_trip ''SFO'' ''5J'' 4000)
              \<lparr> validation := \<lparr> status = QUARANTINED,
                   reasonCodes = [''INVALID_CARRIER_FOR_DISTANCE'', ''OUTLIER_HARD_PRICE_TOO_LOW''],
                   confidence = MEDIUM \<rparr> \<rparr>)"
  by (simp add: validateOffer_def demo_round_trip_def demo_offer_def demo_slice_def
        demo_segment_def IMPOSSIBLE_PH_SFO_PRICE_def Let_def)

text \<open>
  Claim C3, as the specification states it: validateOffer never raises, also on an offer
  with no slice and on a slice with no segment. The code reads the carrier of the first
  segment of the first slice before any rule: both inputs throw a TypeError.
\<close>

theorem validateOffer_raises_counterexample:
  "validateOffer (demo_offer ''NRT'' ''PR'' 20000 []) = Inl TypeError
   \<and> validateOffer (demo_offer ''NRT'' ''PR'' 20000
         [\<lparr> direction = outbound, segments = [], totalDurationMin = 0, stopsCount = 0 \<rparr>])
       = Inl TypeError"
  by (simp add: validateOffer_def demo_offer_def)

text \<open>
  Claim C3, amended: validateOffer returns the offer with a verdict, and does not raise,
  exactly on the offers that have a first slice with a first segment. This includes a
  round-trip offer with exactly one slice, which is returned QUARANTINED with reason
  MISSING_INBOUND_SLICE, and offers whose later slices have no segment. On an offer with
  no slice, or whose first slice has no segment, it throws a TypeError.
\<close>

theorem validateOffer_returns_iff:
  "((\<exists>r. validateOffer offer = Inr r)
      \<longleftrightarrow> (\<exists>s0 rest g0 gs. slices offer = s0 # rest \<and> segments s0 = g0 # gs))
   \<and> (\<forall>s0 g0 gs. tripType offer = round_trip \<and> slices offer = [s0] \<and> segments s0 = g0 # gs
         \<longrightarrow> (\<exists>r. validateOffer offer = Inr r \<and> status (validation r) = QUARANTINED
                  \<and> ''MISSING_INBOUND_SLICE'' \<in> set (reasonCodes (validation r))))
   \<and> (\<forall>s0 rest g0 gs. slices offer = s0 # rest \<and> segments s0 = g0 # gs
         \<longrightarrow> (\<exists>r. validateOffer offer = Inr r))"
proof (intro conjI allI impI)
  show "(\<exists>r. validateOffer offer = Inr r)
      \<longleftrightarrow> (\<exists>s0 rest g0 gs. slices offer = s0 # rest \<and> segments s0 = g0 # gs)"
    by (meson validateOffer_Inr validateOffer_has_result)
next
  fix s0 g0 gs
  assume "tripType offer = round_trip \<and> slices offer = [s0] \<and> segments s0 = g0 # gs"
  then show "\<exists>r. validateOffer offer = Inr r \<and> status (validation r) = QUARANTINED
                  \<and> ''MISSING_INBOUND_SLICE'' \<in> set (reasonCodes (validation r))"
    by (simp add: validateOffer_def Let_def)
next
  fix s0 rest g0 gs
  assume "slices offer = s0 # rest \<and> segments s0 = g0 # gs"
  then show "\<exists>r. validateOffer offer = Inr r"
    using validateOffer_has_result by blast
qed

theorem validateOffer_returns_iff_witness:
  "\<exists>r. validateOffer (demo_offer ''NRT'' ''PR'' 20000 [demo_slice outbound ''PR'' ''MNL'' ''NRT'']) = Inr r
       \<and> status (validation r) = QUARANTINED
       \<and> ''MISSING_INBOUND_SLICE'' \<in> set (reasonCodes (validation r))"
  using validateOffer_returns_iff
          [of "demo_offer ''NRT'' ''PR'' 20000 [demo_slice outbound ''PR'' ''MNL'' ''NRT'']"]
  by (simp add: demo_offer_def demo_slice_def)

text \<open>
  Claim C6: an offer to a long-haul destination (SFO, LAX, JFK, LHR, CDG, FCO) whose
  outbound carrier is 5J or AK is returned QUARANTINED, with
  INVALID_CARRIER_FOR_DISTANCE among the reason codes. The outbound carrier is the
  carrier of the first segment of the first slice.
\<close>

theorem validateOffer_carrier_distance:
  assumes "destinationIata offer \<in> {''SFO'', ''LAX'', ''JFK'', ''LHR'', ''CDG'', ''FCO''}"
    and "slices offer = s0 # rest" and "segments s0 = g0 # gs"
    and "carrierIata g0 \<in> {''5J'', ''AK''}"
  shows "\<exists>r. validateOffer offer = Inr r
           \<and> status (validation r) = QUARANTINED
           \<and> ''INVALID_CARRIER_FOR_DISTANCE'' \<in> set (reasonCodes (validation r))"
  using assms by (auto simp: validateOffer_def Let_def)

theorem validateOffer_carrier_distance_witness:
  "\<exists>r. validateOffer (demo_round_trip ''LHR'' ''AK'' 60000) = Inr r
       \<and> status (validation r) = QUARANTINED
       \<and> ''INVALID_CARRIER_FOR_DISTANCE'' \<in> set (reasonCodes (validation r))"
  using validateOffer_carrier_distance
          [of "demo_round_trip ''LHR'' ''AK'' 60000" "demo_slice outbound ''AK'' ''MNL'' ''LHR''"
              "[demo_slice inbound ''AK'' ''LHR'' ''MNL'']" "demo_segment ''AK'' ''MNL'' ''LHR''" "[]"]
  by (simp add: demo_round_trip_def demo_offer_def demo_slice_def demo_segment_def)



text \<open>
  Claim C10: when validateOffer returns, every field of the returned offer other than the
  validation field equals the field of the input offer.
\<close>

theorem validateOffer_frame:
  assumes "validateOffer offer = Inr r"
  shows "id' r = id' offer \<and> provider r = provider offer \<and> tripType r = tripType offer
       \<and> originIata r = originIata offer \<and> destinationIata r = destinationIata offer
       \<and> departDate r = departDate offer \<and> returnDate r = returnDate offer
       \<and> passengers r = passengers offer \<and> cabin r = cabin offer \<and> price r = price offer
       \<and> slices r = slices offer \<and> meta r = meta offer
       \<and> r = offer\<lparr> validation := validation r \<rparr>"
  using assms by (auto simp: validateOffer_def Let_def split: list.splits)

theorem validateOffer_frame_witness:
  "validateOffer (demo_round_trip ''SIN'' ''SQ'' 4000) = Inr (demo_round_trip ''SIN'' ''SQ'' 4000)
   \<and> price (demo_round_trip ''SIN'' ''SQ'' 4000)
       = \<lparr> total' = 100, currency = ''USD'', totalPHP = 4000, fxRate = USD_TO_PHP,
           fxTimestamp = ''2026-01-01T00:00:00.000Z'', includesTaxesAndFees = True \<rparr>"
proof -
  have run: "validateOffer (demo_round_trip ''SIN'' ''SQ'' 4000)
               = Inr (demo_round_trip ''SIN'' ''SQ'' 4000)"
    by (simp add: validateOffer_def demo_round_trip_def demo_offer_def demo_slice_def
          demo_segment_def Let_def)
  from validateOffer_frame [OF run] run show ?thesis
    by (simp add: demo_round_trip_def demo_offer_def)
qed

section \<open>The score\<close>

text \<open>
  Claim C9: with positive weights the score is
  PRICE_WEIGHT \<times> (displayedPrice / 50000) + QUALITY_WEIGHT \<times> (totalStops \<times> 5
  + totalDurationMinutes / 600), stops and durations summed over the outbound slice and,
  if present, the inbound slice; it does not decrease when the displayed price grows with
  stops and duration fixed, nor when stops and duration grow with the price fixed. The
  score is defined on offers with at least one slice.
\<close>

theorem calculateOfferScore_monotone:
  assumes "0 < pw" and "0 < qw"
    and "slices a \<noteq> []" and "slices b \<noteq> []"
  shows "calculateOfferScoreW pw qw a
           = Inr (pw * (totalPHP (price a) / 50000)
                  + qw * (of_nat (totalStops a) * 5 + totalDurationMinutes a / 600))
       \<and> (\<forall>sa sb. calculateOfferScoreW pw qw a = Inr sa \<and> calculateOfferScoreW pw qw b = Inr sb
             \<and> totalStops a = totalStops b \<and> totalDurationMinutes a = totalDurationMinutes b
             \<and> totalPHP (price a) \<le> totalPHP (price b) \<longrightarrow> sa \<le> sb)
       \<and> (\<forall>sa sb. calculateOfferScoreW pw qw a = Inr sa \<and> calculateOfferScoreW pw qw b = Inr sb
             \<and> totalPHP (price a) = totalPHP (price b)
             \<and> totalStops a \<le> totalStops b \<and> totalDurationMinutes a \<le> totalDurationMinutes b
             \<longrightarrow> sa \<le> sb)"
proof -
  have formula: "calculateOfferScoreW pw qw x
           = Inr (pw * (totalPHP (price x) / 50000)
                  + qw * (of_nat (totalStops x) * 5 + totalDurationMinutes x / 600))"
    if "slices x \<noteq> []" for x
    using that
    by (auto simp: calculateOfferScoreW_def totalStops_def totalDurationMinutes_def Let_def
          split: list.splits)
  have price_mono: "pw * (p / 50000) \<le> pw * (p' / 50000)" if "p \<le> p'" for p p' :: real
    using that \<open>0 < pw\<close> by (simp add: divide_right_mono)
  have quality_mono: "qw * (of_nat n * 5 + d / 600) \<le> qw * (of_nat n' * 5 + d' / 600)"
    if "n \<le> n'" "d \<le> d'" for n n' :: nat and d d' :: real
  proof -
    have "(of_nat n :: real) * 5 + d / 600 \<le> of_nat n' * 5 + d' / 600"
      using that by (simp add: add_mono divide_right_mono)
    then show ?thesis using \<open>0 < qw\<close> by simp
  qed
  show ?thesis
    using price_mono quality_mono
    by (auto simp: formula [OF assms(3)] formula [OF assms(4)])
qed

theorem calculateOfferScore_monotone_witness:
  "calculateOfferScore (demo_round_trip ''NRT'' ''PR'' 20000) = Inr (7 / 15)
   \<and> calculateOfferScore (demo_round_trip ''NRT'' ''PR'' 30000) = Inr (37 / 60)
   \<and> (7 / 15 :: real) \<le> 37 / 60"
proof -
  let ?a = "demo_round_trip ''NRT'' ''PR'' 20000" and ?b = "demo_round_trip ''NRT'' ''PR'' 30000"
  have sa: "calculateOfferScoreW PRICE_WEIGHT QUALITY_WEIGHT ?a = Inr (7 / 15)"
    by (simp add: calculateOfferScoreW_def PRICE_WEIGHT_def QUALITY_WEIGHT_def Let_def
          demo_round_trip_def demo_offer_def demo_slice_def)
  have sb: "calculateOfferScoreW PRICE_WEIGHT QUALITY_WEIGHT ?b = Inr (37 / 60)"
    by (simp add: calculateOfferScoreW_def PRICE_WEIGHT_def QUALITY_WEIGHT_def Let_def
          demo_round_trip_def demo_offer_def demo_slice_def)
  have pos: "0 < PRICE_WEIGHT" "0 < QUALITY_WEIGHT"
    by (simp_all add: PRICE_WEIGHT_def QUALITY_WEIGHT_def)
  have ne: "slices ?a \<noteq> []" "slices ?b \<noteq> []"
    by (simp_all add: demo_round_trip_def demo_offer_def)
  have same: "totalStops ?a = totalStops ?b" "totalDurationMinutes ?a = totalDurationMinutes ?b"
    "totalPHP (price ?a) \<le> totalPHP (price ?b)"
    by (simp_all add: totalStops_def totalDurationMinutes_def demo_round_trip_def demo_offer_def)
  from calculateOfferScore_monotone [OF pos ne] sa sb same
  have "(7 / 15 :: real) \<le> 37 / 60" by blast
  with sa sb show ?thesis by (simp add: calculateOfferScore_def)
qed

section \<open>The generator returns\<close>

declare String_of_nat.simps [simp del]



lemma Math_random_keeps:
  "random_seq (snd (Math_random w)) = random_seq w"
  by (simp add: Math_random_def)

lemma airlineIdx_range:
  assumes "0 \<le> r" and "r < 1"
  shows "0 \<le> Math_floor (r * of_nat (length AIRLINES))"
    and "Math_floor (r * of_nat (length AIRLINES)) < int (length AIRLINES)"
proof -
  have len: "length AIRLINES = 10" by (simp add: AIRLINES_def)
  show "0 \<le> Math_floor (r * of_nat (length AIRLINES))"
    using assms by (simp add: Math_floor_def len)
  have "r * 10 < 10" using assms by simp
  then have "\<lfloor>r * 10\<rfloor> < 10" by (simp add: floor_less_iff)
  then show "Math_floor (r * of_nat (length AIRLINES)) < int (length AIRLINES)"
    by (simp add: Math_floor_def len)
qed

lemma mockOffer_returns:
  assumes "unitRandom w"
  shows "\<exists>offer w'. mockOffer params d r dest c i w = Inr (offer, w')
           \<and> random_seq w' = random_seq w
           \<and> raw_departDate offer = d
           \<and> hasOutboundSegment (raw_slices offer)"
proof -
  have r: "0 \<le> random_seq w (random_calls w)" "random_seq w (random_calls w) < 1"
    using assms by (simp_all add: unitRandom_def)
  note idx = airlineIdx_range [OF r]
  show ?thesis
    unfolding mockOffer_def Let_def split_def
    using idx by (simp add: Math_random_def not_le hasOutboundSegment_def)
qed

lemma mockOffersLoop_returns:
  assumes "unitRandom w"
  shows "\<exists>new w'. mockOffersLoop params d r dest c js offers w = Inr (offers @ new, w')
           \<and> random_seq w' = random_seq w
           \<and> length new = length js
           \<and> (\<forall>x\<in>set new. raw_departDate x = d \<and> hasOutboundSegment (raw_slices x))"
  using assms
proof (induction js arbitrary: offers w)
  case Nil
  then show ?case by simp
next
  case (Cons j js)
  from mockOffer_returns [OF Cons.prems, of params d r dest c j]
  obtain offer w1 where step: "mockOffer params d r dest c j w = Inr (offer, w1)"
    and keep: "random_seq w1 = random_seq w"
    and ok: "raw_departDate offer = d" "hasOutboundSegment (raw_slices offer)"
    by blast
  from keep Cons.prems have "unitRandom w1" by (simp add: unitRandom_def)
  from Cons.IH [OF this, of "offers @ [offer]"]
  obtain new w' where loop: "mockOffersLoop params d r dest c js (offers @ [offer]) w1
                               = Inr ((offers @ [offer]) @ new, w')"
    and keep': "random_seq w' = random_seq w1"
    and len: "length new = length js"
    and all: "\<forall>x\<in>set new. raw_departDate x = d \<and> hasOutboundSegment (raw_slices x)"
    by blast
  have "mockOffersLoop params d r dest c (j # js) offers w = Inr (offers @ (offer # new), w')"
    using step loop by simp
  moreover have "random_seq w' = random_seq w" using keep keep' by simp
  moreover have "length (offer # new) = length (j # js)" using len by simp
  moreover have "\<forall>x\<in>set (offer # new). raw_departDate x = d \<and> hasOutboundSegment (raw_slices x)"
    using ok all by simp
  ultimately show ?case by blast
qed

lemma generateRawMockOffers_returns:
  assumes "unitRandom w"
  shows "\<exists>raws w'. generateRawMockOffers params month day dest c w = Inr (raws, w')
           \<and> random_seq w' = random_seq w
           \<and> length raws = 3
           \<and> (\<forall>x\<in>set raws.
                 raw_departDate x = ''2026-'' @ padStart2 (String_of_nat (month + 1)) @ ''-''
                                    @ padStart2 (String_of_nat day)
                 \<and> hasOutboundSegment (raw_slices x))"
  using mockOffersLoop_returns [OF assms, of params _ _ dest c "[0..<3]" "[]"]
  unfolding generateRawMockOffers_def Let_def by simp

lemma normalizeOffer_keeps:
  "slices (fst (normalizeOffer raw w)) = raw_slices raw"
  "random_seq (snd (normalizeOffer raw w)) = random_seq w"
  by (simp_all add: normalizeOffer_def Let_def split_def Math_random_def Date_toISOString_def)

lemma validateOffer_total:
  assumes "hasOutboundSegment (slices offer)"
  shows "\<exists>r. validateOffer offer = Inr r \<and> price r = price offer \<and> slices r = slices offer"
  using assms
  by (auto simp: validateOffer_def Let_def hasOutboundSegment_def split: list.splits)


lemma unitRandom_demo: "unitRandom demo_world"
  by (simp add: unitRandom_def demo_world_def)

section \<open>The trend series\<close>





section \<open>The offers retained for a country\<close>

lemma validateOffer_Inr_outbound:
  assumes "validateOffer n = Inr v"
  shows "hasOutboundSegment (slices v)"
  using assms by (auto simp: validateOffer_def Let_def hasOutboundSegment_def split: list.splits)

lemma rawOffersLoop_retained:
  assumes "rawOffersLoop raws acc w = Inr (vs, w')" and "\<forall>x\<in>set acc. validOffer x"
  shows "\<forall>x\<in>set vs. validOffer x"
  using assms
proof (induction raws arbitrary: acc w)
  case Nil
  then show ?case by simp
next
  case (Cons raw raws)
  define n where "n = fst (normalizeOffer raw w)"
  define w1 where "w1 = snd (normalizeOffer raw w)"
  have norm: "normalizeOffer raw w = (n, w1)" by (simp add: n_def w1_def)
  from Cons.prems(1) norm obtain v where val: "validateOffer n = Inr v"
    by (cases "validateOffer n") auto
  let ?acc = "if status (validation v) = VALID then acc @ [v] else acc"
  from Cons.prems(1) norm val have rest: "rawOffersLoop raws ?acc w1 = Inr (vs, w')"
    by simp
  have "\<forall>x\<in>set ?acc. validOffer x"
    using Cons.prems(2) validateOffer_Inr_outbound [OF val] by (simp add: validOffer_def)
  from Cons.IH [OF rest this] show ?case .
qed

lemma airportsLoop_retained:
  assumes "airportsLoop params month day airports acc w = Inr (vs, w')"
    and "\<forall>x\<in>set acc. validOffer x"
  shows "\<forall>x\<in>set vs. validOffer x"
  using assms
proof (induction airports arbitrary: acc w)
  case Nil
  then show ?case by simp
next
  case (Cons air airports)
  from Cons.prems(1) obtain raws w1 where
    gen: "generateRawMockOffers params month day (iata air) (city air) w = Inr (raws, w1)"
    by (cases "generateRawMockOffers params month day (iata air) (city air) w") auto
  from Cons.prems(1) gen obtain acc' w2 where
    inner: "rawOffersLoop raws acc w1 = Inr (acc', w2)"
    by (cases "rawOffersLoop raws acc w1") auto
  from Cons.prems(1) gen inner have rest:
    "airportsLoop params month day airports acc' w2 = Inr (vs, w')"
    by simp
  from Cons.IH [OF rest rawOffersLoop_retained [OF inner Cons.prems(2)]] show ?case .
qed

lemma daysLoop_retained:
  assumes "daysLoop params month airports ds acc w = Inr (vs, w')"
    and "\<forall>x\<in>set acc. validOffer x"
  shows "\<forall>x\<in>set vs. validOffer x"
  using assms
proof (induction ds arbitrary: acc w)
  case Nil
  then show ?case by simp
next
  case (Cons a ds)
  let ?day = "min 28 (1 + nat (Math_floor ((of_nat a / 4) * 27)))"
  from Cons.prems(1) obtain acc' w1 where
    inner: "airportsLoop params month ?day airports acc w = Inr (acc', w1)"
    by (cases "airportsLoop params month ?day airports acc w") (auto simp: Let_def)
  from Cons.prems(1) inner have rest:
    "daysLoop params month airports ds acc' w1 = Inr (vs, w')"
    by (simp add: Let_def)
  from Cons.IH [OF rest airportsLoop_retained [OF inner Cons.prems(2)]] show ?case .
qed

lemma collectValidOffers_retained:
  assumes "collectValidOffers params month airports w = Inr (vs, w')"
  shows "\<forall>x\<in>set vs. validOffer x"
  using daysLoop_retained [of params month airports "[0..<5]" "[]" w vs w'] assms
  by (simp add: collectValidOffers_def)

lemma calculateOfferScore_returns:
  assumes "hasOutboundSegment (slices x)"
  shows "\<exists>s. calculateOfferScore x = Inr s"
  using assms
  by (auto simp: calculateOfferScore_def calculateOfferScoreW_def hasOutboundSegment_def Let_def
        split: list.splits)

lemma scoreOffers_returns:
  assumes "\<forall>x\<in>set xs. hasOutboundSegment (slices x)"
  shows "\<exists>ss. scoreOffers xs = Inr ss \<and> map sc_offer ss = xs
           \<and> (\<forall>s\<in>set ss. calculateOfferScore (sc_offer s) = Inr (sc_score s))"
  using assms
proof (induction xs)
  case Nil
  then show ?case by simp
next
  case (Cons x xs)
  from Cons.prems calculateOfferScore_returns [of x]
  obtain s where sx: "calculateOfferScore x = Inr s" by auto
  from Cons obtain ss where ss: "scoreOffers xs = Inr ss" "map sc_offer ss = xs"
    "\<forall>s\<in>set ss. calculateOfferScore (sc_offer s) = Inr (sc_score s)"
    by auto
  let ?r = "\<lparr> sc_offer = x, sc_score = s \<rparr> # ss"
  have 1: "scoreOffers (x # xs) = Inr ?r" using sx ss(1) by simp
  have 2: "map sc_offer ?r = x # xs" using ss(2) by simp
  have 3: "\<forall>s\<in>set ?r. calculateOfferScore (sc_offer s) = Inr (sc_score s)"
    using sx ss(3) by simp
  show ?case by (intro exI [of _ ?r] conjI) (fact 1 2 3)+
qed

lemma sort_key_head:
  fixes f :: "'a \<Rightarrow> real"
  assumes "xs \<noteq> []"
  obtains y ys where "sort_key f xs = y # ys" and "y \<in> set xs" and "\<forall>x\<in>set xs. f y \<le> f x"
proof -
  have "set (sort_key f xs) = set xs" by simp
  with assms obtain y ys where eq: "sort_key f xs = y # ys"
    by (cases "sort_key f xs") auto
  have "sorted (map f (sort_key f xs))" by (rule sorted_sort_key)
  with eq have "\<forall>z\<in>set ys. f y \<le> f z" by simp
  moreover have "set xs = insert y (set ys)"
    using eq set_sort [of f xs] by simp
  ultimately have "y \<in> set xs" "\<forall>x\<in>set xs. f y \<le> f x" by auto
  with eq that show thesis by blast
qed

lemma countryCandidate_none:
  assumes "collectValidOffers params month (airportsOf country) w = Inr ([], w1)"
  shows "countryCandidate params month country w = Inr (None, w1)"
  using assms by (simp add: countryCandidate_def Let_def)

lemma countryCandidate_some:
  assumes coll: "collectValidOffers params month (airportsOf country) w = Inr (vs, w1)"
    and ne: "vs \<noteq> []"
  shows "\<exists>cand. countryCandidate params month country w = Inr (Some cand, w1)
           \<and> candidateOf country vs cand"
proof -
  from collectValidOffers_retained [OF coll]
  have seg: "\<forall>x\<in>set vs. hasOutboundSegment (slices x)"
    by (simp add: validOffer_def)
  from scoreOffers_returns [OF seg]
  obtain ss where sc: "scoreOffers vs = Inr ss" and offers: "map sc_offer ss = vs"
    and scores: "\<forall>s\<in>set ss. calculateOfferScore (sc_offer s) = Inr (sc_score s)"
    by (elim exE conjE)
  from ne offers have ssne: "ss \<noteq> []" by auto
  from sort_key_head [OF ssne, of "\<lambda>a. totalPHP (price (sc_offer a))"]
  obtain c cs where csort: "sort_key (\<lambda>a. totalPHP (price (sc_offer a))) ss = c # cs"
    and cin: "c \<in> set ss"
    and cmin: "\<forall>x\<in>set ss. totalPHP (price (sc_offer c)) \<le> totalPHP (price (sc_offer x))"
    by blast
  from sort_key_head [OF ssne, of sc_score]
  obtain r rs where rsort: "sort_key sc_score ss = r # rs"
    and rin: "r \<in> set ss"
    and rmin: "\<forall>x\<in>set ss. sc_score r \<le> sc_score x"
    by blast
  from scores rin have rscore: "calculateOfferScore (sc_offer r) = Inr (sc_score r)"
    by simp
  let ?cand = "\<lparr> cand_country = country, cand_cheapest = sc_offer c,
                  cand_recommended = sc_offer r, cand_score = sc_score r \<rparr>"
  have run: "countryCandidate params month country w = Inr (Some ?cand, w1)"
    using coll ne sc csort rsort rscore by (simp add: countryCandidate_def Let_def)
  have setvs: "set vs = sc_offer ` set ss"
    using offers by (metis set_map)
  have "sc_offer c \<in> set vs" "sc_offer r \<in> set vs"
    using cin rin setvs by simp_all
  moreover have "\<forall>x\<in>set vs. totalPHP (price (sc_offer c)) \<le> totalPHP (price x)"
    using cmin setvs by auto
  moreover have "\<forall>x\<in>set vs. case calculateOfferScore x of Inr s \<Rightarrow> sc_score r \<le> s | Inl e \<Rightarrow> False"
  proof
    fix x assume "x \<in> set vs"
    then obtain s where "s \<in> set ss" "x = sc_offer s" using setvs by auto
    with scores rmin show "case calculateOfferScore x of Inr s \<Rightarrow> sc_score r \<le> s | Inl e \<Rightarrow> False"
      by simp
  qed
  ultimately have "candidateOf country vs ?cand"
    using rscore by (simp add: candidateOf_def cong: sum.case_cong)
  with run show ?thesis by blast
qed



section \<open>The winner of a month\<close>

lemma pickWinner_cap:
  assumes "first \<in> set cs" and "\<forall>c\<in>set cs. cand_score first \<le> cand_score c"
  shows "pickWinner d usage first cs \<in> set cs
       \<and> (d \<longrightarrow> usageOf usage (code (cand_country (pickWinner d usage first cs))) < 2
                \<or> ((\<forall>c\<in>set cs. 2 \<le> usageOf usage (code (cand_country c)))
                    \<and> (\<forall>c\<in>set cs. cand_score (pickWinner d usage first cs) \<le> cand_score c)))"
proof -
  define win where "win = pickWinner d usage first cs"
  have "win \<in> set cs
       \<and> (d \<longrightarrow> usageOf usage (code (cand_country win)) < 2
                \<or> ((\<forall>c\<in>set cs. 2 \<le> usageOf usage (code (cand_country c)))
                    \<and> (\<forall>c\<in>set cs. cand_score win \<le> cand_score c)))"
  proof (cases "find (\<lambda>cand. usageOf usage (code (cand_country cand)) < 2) cs")
    case None
    then have all: "\<forall>c\<in>set cs. 2 \<le> usageOf usage (code (cand_country c))"
      by (auto simp: find_None_iff not_less)
    from None have "win = first"
      by (simp add: win_def pickWinner_def)
    with assms all show ?thesis by blast
  next
    case (Some x)
    then have x: "x \<in> set cs" "usageOf usage (code (cand_country x)) < 2"
      by (auto simp: find_Some_iff)
    from Some have "win = (if d then x else first)"
      by (simp add: win_def pickWinner_def)
    with assms x show ?thesis by (cases d) auto
  qed
  then show ?thesis unfolding win_def .
qed

lemma monthBody_empty:
  assumes "countriesLoop params month countries [] (es_world st) = Inr ([], w1)"
  shows "monthBody countries params month st = Inr (st\<lparr> es_world := w1 \<rparr>)"
  using assms by (simp add: monthBody_def)

lemma monthBody_winner:
  assumes pool: "countriesLoop params month countries [] (es_world st) = Inr (cands, w1)"
    and ne: "cands \<noteq> []"
  shows "\<exists>winner. winner \<in> set cands
           \<and> monthBody countries params month st
               = Inr \<lparr> es_world = snd (Date_toISOString w1),
                       countryUsage = (countryUsage st)
                         (code (cand_country winner)
                            \<mapsto> usageOf (countryUsage st) (code (cand_country winner)) + 1),
                       allMonthsRecs = allMonthsRecs st
                         @ [recommendationOf month winner (fst (Date_toISOString w1))] \<rparr>
           \<and> (q_diversify params \<longrightarrow>
                 usageOf (countryUsage st) (code (cand_country winner)) < 2
                 \<or> ((\<forall>c\<in>set cands. 2 \<le> usageOf (countryUsage st) (code (cand_country c)))
                     \<and> (\<forall>c\<in>set cands. cand_score winner \<le> cand_score c)))"
proof -
  from sort_key_head [OF ne, of cand_score]
  obtain first rest where srt: "sort_key cand_score cands = first # rest"
    and fin: "first \<in> set cands"
    and fmin: "\<forall>c\<in>set cands. cand_score first \<le> cand_score c"
    by blast
  define sortedCands where "sortedCands = first # rest"
  have sets: "set sortedCands = set cands"
    using srt set_sort [of cand_score cands] by (simp add: sortedCands_def)
  define winner where
    "winner = pickWinner (q_diversify params) (countryUsage st) first sortedCands"
  have "first \<in> set sortedCands" by (simp add: sortedCands_def)
  moreover have "\<forall>c\<in>set sortedCands. cand_score first \<le> cand_score c"
    using fmin sets by simp
  ultimately have pw: "winner \<in> set sortedCands
       \<and> (q_diversify params \<longrightarrow> usageOf (countryUsage st) (code (cand_country winner)) < 2
                \<or> ((\<forall>c\<in>set sortedCands. 2 \<le> usageOf (countryUsage st) (code (cand_country c)))
                    \<and> (\<forall>c\<in>set sortedCands. cand_score winner \<le> cand_score c)))"
    unfolding winner_def by (rule pickWinner_cap)
  have run: "monthBody countries params month st
               = Inr \<lparr> es_world = snd (Date_toISOString w1),
                       countryUsage = (countryUsage st)
                         (code (cand_country winner)
                            \<mapsto> usageOf (countryUsage st) (code (cand_country winner)) + 1),
                       allMonthsRecs = allMonthsRecs st
                         @ [recommendationOf month winner (fst (Date_toISOString w1))] \<rparr>"
    using pool ne srt
    by (simp add: monthBody_def Let_def split_def recommendationOf_def winner_def sortedCands_def)
  from pw have 1: "winner \<in> set cands"
    and 3: "q_diversify params \<longrightarrow>
                 usageOf (countryUsage st) (code (cand_country winner)) < 2
                 \<or> ((\<forall>c\<in>set cands. 2 \<le> usageOf (countryUsage st) (code (cand_country c)))
                     \<and> (\<forall>c\<in>set cands. cand_score winner \<le> cand_score c))"
    unfolding sets by blast+
  show ?thesis
    by (intro exI [of _ winner] conjI) (fact 1 run 3)+
qed

lemma wins_append:
  "wins (recs @ [r]) c = wins recs c + (if code (rec_country r) = c then 1 else 0)"
  by (simp add: wins_def)

lemma usageCounts_initial: "usageCounts (initialEngine w)"
  by (simp add: usageCounts_def initialEngine_def usageOf_def wins_def)

lemma monthBody_cases:
  assumes "monthBody countries params month st = Inr st'"
  obtains (skip) w1 where "countriesLoop params month countries [] (es_world st) = Inr ([], w1)"
      and "st' = st\<lparr> es_world := w1 \<rparr>"
    | (pick) cands w1 winner where
        "countriesLoop params month countries [] (es_world st) = Inr (cands, w1)"
      and "cands \<noteq> []" and "winner \<in> set cands"
      and "st' = \<lparr> es_world = snd (Date_toISOString w1),
                   countryUsage = (countryUsage st)
                     (code (cand_country winner)
                        \<mapsto> usageOf (countryUsage st) (code (cand_country winner)) + 1),
                   allMonthsRecs = allMonthsRecs st
                     @ [recommendationOf month winner (fst (Date_toISOString w1))] \<rparr>"
      and "q_diversify params \<Longrightarrow>
             usageOf (countryUsage st) (code (cand_country winner)) < 2
             \<or> ((\<forall>c\<in>set cands. 2 \<le> usageOf (countryUsage st) (code (cand_country c)))
                 \<and> (\<forall>c\<in>set cands. cand_score winner \<le> cand_score c))"
proof -
  from assms obtain cands w1 where
    pool: "countriesLoop params month countries [] (es_world st) = Inr (cands, w1)"
    by (cases "countriesLoop params month countries [] (es_world st)")
       (auto simp: monthBody_def)
  show thesis
  proof (cases "cands = []")
    case True
    with pool monthBody_empty [of params month countries st w1] assms
    show thesis by (intro skip [of w1]) simp_all
  next
    case False
    from monthBody_winner [OF pool False] assms
    obtain winner where "winner \<in> set cands"
      and "st' = \<lparr> es_world = snd (Date_toISOString w1),
                   countryUsage = (countryUsage st)
                     (code (cand_country winner)
                        \<mapsto> usageOf (countryUsage st) (code (cand_country winner)) + 1),
                   allMonthsRecs = allMonthsRecs st
                     @ [recommendationOf month winner (fst (Date_toISOString w1))] \<rparr>"
      and "q_diversify params \<longrightarrow>
             usageOf (countryUsage st) (code (cand_country winner)) < 2
             \<or> ((\<forall>c\<in>set cands. 2 \<le> usageOf (countryUsage st) (code (cand_country c)))
                 \<and> (\<forall>c\<in>set cands. cand_score winner \<le> cand_score c))"
      by auto
    with pool False show thesis by (intro pick [of cands w1 winner]) simp_all
  qed
qed

lemma monthBody_usageCounts:
  assumes "monthBody countries params month st = Inr st'" and "usageCounts st"
  shows "usageCounts st'"
  using assms(1)
proof (cases rule: monthBody_cases)
  case (skip w1)
  with assms(2) show ?thesis by (simp add: usageCounts_def)
next
  case (pick cands w1 winner)
  have "rec_country (recommendationOf month winner (fst (Date_toISOString w1))) = cand_country winner"
    by (simp add: recommendationOf_def)
  with pick(4) assms(2) show ?thesis
    by (simp add: usageCounts_def wins_append usageOf_def)
qed

lemma monthsLoop_append:
  "monthsLoop countries params (xs @ ys) st
     = (case monthsLoop countries params xs st of
          Inl e \<Rightarrow> Inl e
        | Inr st' \<Rightarrow> monthsLoop countries params ys st')"
  by (induction xs arbitrary: st) (auto split: sum.splits)

lemma monthsLoop_usageCounts:
  assumes "monthsLoop countries params ms st = Inr st'" and "usageCounts st"
  shows "usageCounts st'"
  using assms
proof (induction ms arbitrary: st)
  case Nil
  then show ?case by simp
next
  case (Cons m ms)
  from Cons.prems(1) obtain st1 where
    step: "monthBody countries params m st = Inr st1"
    and rest: "monthsLoop countries params ms st1 = Inr st'"
    by (cases "monthBody countries params m st") auto
  from Cons.IH [OF rest monthBody_usageCounts [OF step Cons.prems(2)]] show ?case .
qed

lemma monthsLoop_snoc:
  assumes "monthsLoop countries params (ms @ [m]) st0 = Inr final"
  obtains st where "monthsLoop countries params ms st0 = Inr st"
    and "monthBody countries params m st = Inr final"
proof -
  from assms obtain st where a: "monthsLoop countries params ms st0 = Inr st"
    and b: "monthsLoop countries params [m] st = Inr final"
    by (cases "monthsLoop countries params ms st0") (auto simp: monthsLoop_append)
  from b have "monthBody countries params m st = Inr final"
    by (cases "monthBody countries params m st") auto
  with a that show thesis by blast
qed

text \<open>
  Claim C4: in a build with the diversification flag set, a country is the winner of a
  month at most 2 times, unless at the moment of selection every candidate country had
  already reached the cap of 2; then the best-scored candidate of the month is chosen.
  The build is stated for any list of countries and of months; getMonthlyRecommendations
  runs it on COUNTRIES and the months 0 to 11. For the recommendation at position \<open>i\<close>
  of the output: its country has won at most 2 times up to and including this month, or
  the state before this month shows every candidate at the cap and the winner with the
  minimum score.
\<close>

theorem diversification_cap:
  assumes div: "q_diversify params"
    and run: "monthsLoop countries params months (initialEngine w0) = Inr final"
    and i: "i < length (allMonthsRecs final)"
  shows "wins (take (Suc i) (allMonthsRecs final)) (code (rec_country (allMonthsRecs final ! i))) \<le> 2
       \<or> (\<exists>pre post st cands w1 winner.
            months = pre @ rec_month (allMonthsRecs final ! i) # post
            \<and> monthsLoop countries params pre (initialEngine w0) = Inr st
            \<and> allMonthsRecs st = take i (allMonthsRecs final)
            \<and> countriesLoop params (rec_month (allMonthsRecs final ! i)) countries []
                  (es_world st) = Inr (cands, w1)
            \<and> (\<forall>c\<in>set cands. 2 \<le> wins (allMonthsRecs st) (code (cand_country c)))
            \<and> winner \<in> set cands
            \<and> rec_country (allMonthsRecs final ! i) = cand_country winner
            \<and> (\<forall>c\<in>set cands. cand_score winner \<le> cand_score c))"
  using run i
proof (induction months arbitrary: final i rule: rev_induct)
  case Nil
  then show ?case by (auto simp: initialEngine_def)
next
  case (snoc m ms)
  from snoc.prems(1) obtain st where before: "monthsLoop countries params ms (initialEngine w0) = Inr st"
    and step: "monthBody countries params m st = Inr final"
    by (rule monthsLoop_snoc)
  have counts: "usageCounts st"
    using monthsLoop_usageCounts [OF before usageCounts_initial] .
  have older: ?case
    if old: "i < length (allMonthsRecs st)"
      and same: "take (Suc i) (allMonthsRecs final) = take (Suc i) (allMonthsRecs st)"
        "take i (allMonthsRecs final) = take i (allMonthsRecs st)"
        "allMonthsRecs final ! i = allMonthsRecs st ! i"
  proof -
    from snoc.IH [OF before old]
    consider "wins (take (Suc i) (allMonthsRecs st)) (code (rec_country (allMonthsRecs st ! i))) \<le> 2"
      | pre post st1 cands w1 winner where
          "ms = pre @ rec_month (allMonthsRecs st ! i) # post"
          "monthsLoop countries params pre (initialEngine w0) = Inr st1"
          "allMonthsRecs st1 = take i (allMonthsRecs st)"
          "countriesLoop params (rec_month (allMonthsRecs st ! i)) countries []
                  (es_world st1) = Inr (cands, w1)"
          "\<forall>c\<in>set cands. 2 \<le> wins (allMonthsRecs st1) (code (cand_country c))"
          "winner \<in> set cands"
          "rec_country (allMonthsRecs st ! i) = cand_country winner"
          "\<forall>c\<in>set cands. cand_score winner \<le> cand_score c"
      by blast
    then show ?thesis
    proof cases
      case 1
      then show ?thesis by (simp add: same)
    next
      case 2
      from 2(1) have "ms @ [m] = pre @ rec_month (allMonthsRecs st ! i) # (post @ [m])"
        by simp
      with 2(2-8) show ?thesis
        unfolding same by blast
    qed
  qed
  from step show ?case
  proof (cases rule: monthBody_cases)
    case (skip w1)
    then have "allMonthsRecs final = allMonthsRecs st" by simp
    with snoc.prems(2) older show ?thesis by simp
  next
    case (pick cands w1 winner)
    define r where "r = recommendationOf m winner (fst (Date_toISOString w1))"
    have recs: "allMonthsRecs final = allMonthsRecs st @ [r]"
      using pick(4) by (simp add: r_def)
    have r: "rec_month r = m" "rec_country r = cand_country winner"
      by (simp_all add: r_def recommendationOf_def)
    show ?thesis
    proof (cases "i < length (allMonthsRecs st)")
      case True
      then show ?thesis
        by (intro older) (simp_all add: recs nth_append)
    next
      case False
      with snoc.prems(2) recs have i: "i = length (allMonthsRecs st)" by simp
      then have at: "allMonthsRecs final ! i = r" "take i (allMonthsRecs final) = allMonthsRecs st"
        "take (Suc i) (allMonthsRecs final) = allMonthsRecs st @ [r]"
        by (simp_all add: recs)
      from counts have usage: "usageOf (countryUsage st) c = wins (allMonthsRecs st) c" for c
        by (simp add: usageCounts_def)
      from pick(5) [OF div] consider
          "wins (allMonthsRecs st) (code (cand_country winner)) < 2"
        | "\<forall>c\<in>set cands. 2 \<le> wins (allMonthsRecs st) (code (cand_country c))"
          "\<forall>c\<in>set cands. cand_score winner \<le> cand_score c"
        unfolding usage by blast
      then show ?thesis
      proof cases
        case 1
        then have "wins (allMonthsRecs st @ [r]) (code (rec_country r)) \<le> 2"
          by (simp add: wins_append r)
        then show ?thesis by (simp add: at)
      next
        case 2
        have "ms @ [m] = ms @ rec_month r # []" by (simp add: r)
        moreover note before
        moreover have "allMonthsRecs st = take i (allMonthsRecs final)" by (simp add: at)
        moreover have "countriesLoop params (rec_month r) countries [] (es_world st) = Inr (cands, w1)"
          using pick(1) by (simp add: r)
        moreover note 2(1) pick(3) r(2) 2(2)
        ultimately show ?thesis
          unfolding at by blast
      qed
    qed
  qed
qed

section \<open>The engine returns\<close>

lemma rawOffersLoop_returns:
  assumes "\<forall>x\<in>set raws. hasOutboundSegment (raw_slices x)"
  shows "\<exists>vs w'. rawOffersLoop raws acc w = Inr (vs, w') \<and> random_seq w' = random_seq w"
  using assms
proof (induction raws arbitrary: acc w)
  case Nil
  then show ?case by simp
next
  case (Cons raw raws)
  define n where "n = fst (normalizeOffer raw w)"
  define w1 where "w1 = snd (normalizeOffer raw w)"
  have norm: "normalizeOffer raw w = (n, w1)" by (simp add: n_def w1_def)
  have keep: "random_seq w1 = random_seq w" by (simp add: w1_def normalizeOffer_keeps)
  have "hasOutboundSegment (slices n)"
    using Cons.prems by (simp add: n_def normalizeOffer_keeps)
  from validateOffer_total [OF this] obtain v where val: "validateOffer n = Inr v"
    by blast
  let ?acc = "if status (validation v) = VALID then acc @ [v] else acc"
  from Cons.prems have "\<forall>x\<in>set raws. hasOutboundSegment (raw_slices x)" by simp
  from Cons.IH [OF this, of ?acc w1]
  obtain vs w' where rest: "rawOffersLoop raws ?acc w1 = Inr (vs, w')"
    and keep': "random_seq w' = random_seq w1"
    by (elim exE conjE)
  have 1: "rawOffersLoop (raw # raws) acc w = Inr (vs, w')"
    using norm val rest by simp
  have 2: "random_seq w' = random_seq w" using keep keep' by simp
  show ?case by (intro exI [of _ vs] exI [of _ w'] conjI) (fact 1 2)+
qed

lemma airportsLoop_returns:
  assumes "unitRandom w"
  shows "\<exists>vs w'. airportsLoop params month day airports acc w = Inr (vs, w')
           \<and> random_seq w' = random_seq w"
  using assms
proof (induction airports arbitrary: acc w)
  case Nil
  then show ?case by simp
next
  case (Cons air airports)
  obtain raws w1 where
    gen: "generateRawMockOffers params month day (iata air) (city air) w = Inr (raws, w1)"
    and keep1: "random_seq w1 = random_seq w"
    and seg: "\<forall>x\<in>set raws. hasOutboundSegment (raw_slices x)"
    using generateRawMockOffers_returns [OF Cons.prems, of params month day "iata air" "city air"]
    by (elim exE conjE) blast
  obtain acc' w2 where inner: "rawOffersLoop raws acc w1 = Inr (acc', w2)"
    and keep2: "random_seq w2 = random_seq w1"
    using rawOffersLoop_returns [OF seg, of acc w1] by (elim exE conjE)
  have "unitRandom w2" using Cons.prems keep1 keep2 by (simp add: unitRandom_def)
  from Cons.IH [OF this, of acc']
  obtain vs w' where rest: "airportsLoop params month day airports acc' w2 = Inr (vs, w')"
    and keep3: "random_seq w' = random_seq w2"
    by (elim exE conjE)
  have 1: "airportsLoop params month day (air # airports) acc w = Inr (vs, w')"
    using gen inner rest by simp
  have 2: "random_seq w' = random_seq w" using keep1 keep2 keep3 by simp
  show ?case by (intro exI [of _ vs] exI [of _ w'] conjI) (fact 1 2)+
qed

lemma daysLoop_returns:
  assumes "unitRandom w"
  shows "\<exists>vs w'. daysLoop params month airports ds acc w = Inr (vs, w')
           \<and> random_seq w' = random_seq w"
  using assms
proof (induction ds arbitrary: acc w)
  case Nil
  then show ?case by simp
next
  case (Cons a ds)
  let ?day = "min 28 (1 + nat (Math_floor ((of_nat a / 4) * 27)))"
  obtain acc' w1 where inner: "airportsLoop params month ?day airports acc w = Inr (acc', w1)"
    and keep1: "random_seq w1 = random_seq w"
    using airportsLoop_returns [OF Cons.prems, of params month ?day airports acc]
    by (elim exE conjE)
  have "unitRandom w1" using Cons.prems keep1 by (simp add: unitRandom_def)
  from Cons.IH [OF this, of acc']
  obtain vs w' where rest: "daysLoop params month airports ds acc' w1 = Inr (vs, w')"
    and keep2: "random_seq w' = random_seq w1"
    by (elim exE conjE)
  have 1: "daysLoop params month airports (a # ds) acc w = Inr (vs, w')"
    using inner rest by (simp add: Let_def)
  have 2: "random_seq w' = random_seq w" using keep1 keep2 by simp
  show ?case by (intro exI [of _ vs] exI [of _ w'] conjI) (fact 1 2)+
qed

lemma collectValidOffers_returns:
  assumes "unitRandom w"
  shows "\<exists>vs w'. collectValidOffers params month airports w = Inr (vs, w')
           \<and> random_seq w' = random_seq w"
  using daysLoop_returns [OF assms] by (simp add: collectValidOffers_def)

lemma countryCandidate_returns:
  assumes "unitRandom w"
  shows "\<exists>opt w'. countryCandidate params month country w = Inr (opt, w')
           \<and> random_seq w' = random_seq w"
proof -
  obtain vs w1 where coll: "collectValidOffers params month (airportsOf country) w = Inr (vs, w1)"
    and keep: "random_seq w1 = random_seq w"
    using collectValidOffers_returns [OF assms, of params month "airportsOf country"]
    by (elim exE conjE)
  show ?thesis
  proof (cases "vs = []")
    case True
    with coll countryCandidate_none [of params month country w w1] keep
    show ?thesis by simp
  next
    case False
    from countryCandidate_some [OF coll False] keep show ?thesis by blast
  qed
qed

lemma countriesLoop_returns:
  assumes "unitRandom w"
  shows "\<exists>cands w'. countriesLoop params month countries acc w = Inr (cands, w')
           \<and> random_seq w' = random_seq w"
  using assms
proof (induction countries arbitrary: acc w)
  case Nil
  then show ?case by simp
next
  case (Cons country countries)
  obtain opt w1 where body: "countryCandidate params month country w = Inr (opt, w1)"
    and keep1: "random_seq w1 = random_seq w"
    using countryCandidate_returns [OF Cons.prems, of params month country]
    by (elim exE conjE)
  have u1: "unitRandom w1" using Cons.prems keep1 by (simp add: unitRandom_def)
  let ?acc = "case opt of None \<Rightarrow> acc | Some cand \<Rightarrow> acc @ [cand]"
  from Cons.IH [OF u1, of ?acc]
  obtain cands w' where rest: "countriesLoop params month countries ?acc w1 = Inr (cands, w')"
    and keep2: "random_seq w' = random_seq w1"
    by (elim exE conjE)
  have 1: "countriesLoop params month (country # countries) acc w = Inr (cands, w')"
    using body rest by (cases opt) simp_all
  have 2: "random_seq w' = random_seq w" using keep1 keep2 by simp
  show ?case by (intro exI [of _ cands] exI [of _ w'] conjI) (fact 1 2)+
qed

lemma monthBody_returns:
  assumes "unitRandom (es_world st)"
  shows "\<exists>st'. monthBody countries params month st = Inr st' \<and> unitRandom (es_world st')"
proof -
  obtain cands w1 where
    pool: "countriesLoop params month countries [] (es_world st) = Inr (cands, w1)"
    and keep: "random_seq w1 = random_seq (es_world st)"
    using countriesLoop_returns [OF assms, of params month countries "[]"]
    by (elim exE conjE)
  have u1: "unitRandom w1" using assms keep by (simp add: unitRandom_def)
  show ?thesis
  proof (cases "cands = []")
    case True
    with pool monthBody_empty [of params month countries st w1] u1
    show ?thesis by simp
  next
    case False
    have "unitRandom (snd (Date_toISOString w1))"
      using u1 by (simp add: unitRandom_def Date_toISOString_def)
    with monthBody_winner [OF pool False] show ?thesis by auto
  qed
qed

lemma monthsLoop_returns:
  assumes "unitRandom (es_world st)"
  shows "\<exists>st'. monthsLoop countries params ms st = Inr st'"
  using assms
proof (induction ms arbitrary: st)
  case Nil
  then show ?case by simp
next
  case (Cons m ms)
  from monthBody_returns [OF Cons.prems, of countries params m]
  obtain st1 where step: "monthBody countries params m st = Inr st1"
    and u1: "unitRandom (es_world st1)"
    by blast
  from Cons.IH [OF u1] step show ?case by simp
qed

lemma getMonthlyRecommendations_returns:
  assumes "unitRandom w"
  shows "\<exists>recs w'. getMonthlyRecommendations params w = Inr (recs, w')"
proof -
  have "unitRandom (es_world (initialEngine w))"
    using assms by (simp add: initialEngine_def)
  from monthsLoop_returns [OF this, of COUNTRIES params "[0..<12]"]
  show ?thesis by (auto simp: getMonthlyRecommendations_def)
qed

lemma monthsLoop_demo:
  "(case monthsLoop [COUNTRIES ! 1] demo_query [0..<3] (initialEngine demo_world) of
      Inr st \<Rightarrow> (length (allMonthsRecs st),
                 wins (take 3 (allMonthsRecs st)) (code (rec_country (allMonthsRecs st ! 2))))
    | Inl e \<Rightarrow> (0, 0)) = (3, 3)"
  by code_simp

theorem diversification_cap_witness:
  "\<exists>final. monthsLoop [COUNTRIES ! 1] demo_query [0..<3] (initialEngine demo_world) = Inr final
     \<and> length (allMonthsRecs final) = 3
     \<and> wins (take 3 (allMonthsRecs final)) (code (rec_country (allMonthsRecs final ! 2))) = 3
     \<and> (\<exists>pre post st cands w1 winner.
            [0..<3] = pre @ rec_month (allMonthsRecs final ! 2) # post
            \<and> monthsLoop [COUNTRIES ! 1] demo_query pre (initialEngine demo_world) = Inr st
            \<and> allMonthsRecs st = take 2 (allMonthsRecs final)
            \<and> countriesLoop demo_query (rec_month (allMonthsRecs final ! 2)) [COUNTRIES ! 1] []
                  (es_world st) = Inr (cands, w1)
            \<and> (\<forall>c\<in>set cands. 2 \<le> wins (allMonthsRecs st) (code (cand_country c)))
            \<and> winner \<in> set cands
            \<and> rec_country (allMonthsRecs final ! 2) = cand_country winner
            \<and> (\<forall>c\<in>set cands. cand_score winner \<le> cand_score c))"
proof -
  have "unitRandom (es_world (initialEngine demo_world))"
    using unitRandom_demo by (simp add: initialEngine_def)
  from monthsLoop_returns [OF this, of "[COUNTRIES ! 1]" demo_query "[0..<3]"]
  obtain final where
    run: "monthsLoop [COUNTRIES ! 1] demo_query [0..<3] (initialEngine demo_world) = Inr final"
    by blast
  from monthsLoop_demo [unfolded run]
  have both: "length (allMonthsRecs final) = 3
      \<and> wins (take 3 (allMonthsRecs final)) (code (rec_country (allMonthsRecs final ! 2))) = 3"
    by (simp only: sum.case prod.inject)
  from both have len: "length (allMonthsRecs final) = 3" by (rule conjunct1)
  from both have three:
    "wins (take 3 (allMonthsRecs final)) (code (rec_country (allMonthsRecs final ! 2))) = 3"
    by (rule conjunct2)
  have div: "q_diversify demo_query" by (simp add: demo_query_def)
  have i: "2 < length (allMonthsRecs final)" using len by simp
  have suc: "Suc 2 = 3" by simp
  have over: "\<not> wins (take 3 (allMonthsRecs final))
                    (code (rec_country (allMonthsRecs final ! 2))) \<le> 2"
    unfolding three by simp
  from diversification_cap [OF div run i, unfolded suc] over
  have "\<exists>pre post st cands w1 winner.
            [0..<3] = pre @ rec_month (allMonthsRecs final ! 2) # post
            \<and> monthsLoop [COUNTRIES ! 1] demo_query pre (initialEngine demo_world) = Inr st
            \<and> allMonthsRecs st = take 2 (allMonthsRecs final)
            \<and> countriesLoop demo_query (rec_month (allMonthsRecs final ! 2)) [COUNTRIES ! 1] []
                  (es_world st) = Inr (cands, w1)
            \<and> (\<forall>c\<in>set cands. 2 \<le> wins (allMonthsRecs st) (code (cand_country c)))
            \<and> winner \<in> set cands
            \<and> rec_country (allMonthsRecs final ! 2) = cand_country winner
            \<and> (\<forall>c\<in>set cands. cand_score winner \<le> cand_score c)"
    by blast
  with run len three show ?thesis by blast
qed

section \<open>Valid offers and candidates\<close>







end
